theory Spec2Isabelle
  imports Complex_Main
begin

section \<open>FractionMath (fraction-utils.ts, src/unnamed/part_005)\<close>

text \<open>
  JavaScript numbers are modelled as exact rationals: the arithmetic of the source
  (\<open>Math.floor\<close>, \<open>Math.round\<close>, \<open>Math.abs\<close>, \<open>+\<close>, \<open>-\<close>, \<open>*\<close>, \<open>/\<close>) is
  read as the mathematical operation, without the rounding of IEEE doubles and without
  NaN or the infinities.  Strings are lists of characters; \<open>null\<close> is \<open>None\<close>.
\<close>

subsection \<open>Characters and digit strings\<close>

text \<open>The characters matched by \<open>\s\<close> (and stripped by \<open>trim\<close>) that fit in one byte.\<close>

definition is_space :: "char \<Rightarrow> bool" where
  "is_space c = (c = CHR '' '' \<or> c = CHR 0x09 \<or> c = CHR 0x0A \<or> c = CHR 0x0B
     \<or> c = CHR 0x0C \<or> c = CHR 0x0D \<or> c = CHR 0xA0)"

text \<open>\<open>\d\<close>: the ten ASCII digits.\<close>

definition is_digit :: "char \<Rightarrow> bool" where
  "is_digit c = (48 \<le> (of_char c :: nat) \<and> (of_char c :: nat) \<le> 57)"

definition digit_val :: "char \<Rightarrow> nat" where
  "digit_val c = (of_char c :: nat) - 48"

definition digit_char :: "nat \<Rightarrow> char" where
  "digit_char n = char_of (48 + n)"

text \<open>\<open>/^\d+$/.test(s)\<close>\<close>

definition is_digits :: "string \<Rightarrow> bool" where
  "is_digits s = (s \<noteq> [] \<and> list_all is_digit s)"

text \<open>\<open>parseInt(s, 10)\<close> and \<open>Number(s)\<close> on a string of digits.\<close>

definition parse_digits :: "string \<Rightarrow> nat" where
  "parse_digits s = foldl (\<lambda>n c. 10 * n + digit_val c) 0 s"

text \<open>\<open>s.trim()\<close> and \<open>s.replace(/\s+/g, '')\<close>.\<close>

definition js_trim :: "string \<Rightarrow> string" where
  "js_trim s = rev (dropWhile is_space (rev (dropWhile is_space s)))"

definition remove_ws :: "string \<Rightarrow> string" where
  "remove_ws s = filter (\<lambda>c. \<not> is_space c) s"

text \<open>
  The two parts of \<open>s.split(c)\<close> for a string in which \<open>c\<close> occurs: the text before
  the first \<open>c\<close> and the text after it.  The source only destructures the first two
  parts of a split, and only after a regular expression has fixed where \<open>c\<close> occurs.
\<close>

definition before_sep :: "char \<Rightarrow> string \<Rightarrow> string" where
  "before_sep c s = takeWhile (\<lambda>x. x \<noteq> c) s"

definition after_sep :: "char \<Rightarrow> string \<Rightarrow> string" where
  "after_sep c s = drop 1 (dropWhile (\<lambda>x. x \<noteq> c) s)"

text \<open>\<open>/^\d+\/\d+$/.test(s)\<close>\<close>

definition match_simple :: "string \<Rightarrow> bool" where
  "match_simple s = (CHR ''/'' \<in> set s \<and> is_digits (before_sep CHR ''/'' s)
     \<and> is_digits (after_sep CHR ''/'' s))"

text \<open>\<open>/^\d+-\d+\/\d+$/.test(s)\<close>\<close>

definition match_mixed :: "string \<Rightarrow> bool" where
  "match_mixed s = (CHR ''-'' \<in> set s \<and> is_digits (before_sep CHR ''-'' s)
     \<and> match_simple (after_sep CHR ''-'' s))"

subsection \<open>fractionToDecimal and isValidFractionString\<close>

definition fractionToDecimal :: "string \<Rightarrow> rat option" where
  "fractionToDecimal fractionStr =
     (let cleanStr = remove_ws (js_trim fractionStr) in
      if cleanStr = [] then None
      else if is_digits cleanStr then Some (of_nat (parse_digits cleanStr))
      else if match_simple cleanStr then
        (let numerator = parse_digits (before_sep CHR ''/'' cleanStr);
             denominator = parse_digits (after_sep CHR ''/'' cleanStr)
         in if denominator = 0 then None
            else Some (of_nat numerator / of_nat denominator))
      else if match_mixed cleanStr then
        (let whole = before_sep CHR ''-'' cleanStr;
             fraction = after_sep CHR ''-'' cleanStr;
             numerator = parse_digits (before_sep CHR ''/'' fraction);
             denominator = parse_digits (after_sep CHR ''/'' fraction)
         in if denominator = 0 then None
            else Some (of_nat (parse_digits whole) + of_nat numerator / of_nat denominator))
      else None)"


subsection \<open>decimalToFraction\<close>

text \<open>The template literal \<open>`${n}`\<close> for an integer below \<open>10^21\<close>: its decimal digits.\<close>

function show_nat :: "nat \<Rightarrow> string" where
  "show_nat n = (if n < 10 then [digit_char n]
     else show_nat (n div 10) @ [digit_char (n mod 10)])"
  by pat_completeness auto
termination
  by (relation "measure id") auto

definition show_int :: "int \<Rightarrow> string" where
  "show_int i = (if i < 0 then ''-'' @ show_nat (nat (- i)) else show_nat (nat i))"

text \<open>The \<open>while (b !== 0)\<close> loop of \<open>findGCD\<close>, on the absolute values.\<close>

function gcd_loop :: "nat \<Rightarrow> nat \<Rightarrow> nat" where
  "gcd_loop a b = (if b \<noteq> 0 then gcd_loop b (a mod b) else a)"
  by pat_completeness auto
termination
  by (relation "measure snd") auto

definition findGCD :: "int \<Rightarrow> int \<Rightarrow> int" where
  "findGCD a b = int (gcd_loop (nat \<bar>a\<bar>) (nat \<bar>b\<bar>))"

text \<open>
  The \<open>for (denominator = 1; denominator <= maxDenominator; denominator++)\<close> loop,
  started at any denominator, with the three \<open>best\<close> variables as the accumulator.
  The \<open>break\<close> returns the accumulator at once.
\<close>

function scanDenominators ::
  "rat \<Rightarrow> nat \<Rightarrow> nat \<Rightarrow> int \<times> nat \<times> rat \<Rightarrow> int \<times> nat \<times> rat" where
  "scanDenominators fractionalPart maxDenominator denominator
       (bestNumerator, bestDenominator, bestError) =
     (if denominator \<le> maxDenominator then
        (let numerator = round (fractionalPart * of_nat denominator);
             error = \<bar>fractionalPart - of_int numerator / of_nat denominator\<bar>
         in if error < bestError then
              (if error < 1 / 10000000 then (numerator, denominator, error)
               else scanDenominators fractionalPart maxDenominator (denominator + 1)
                      (numerator, denominator, error))
            else scanDenominators fractionalPart maxDenominator (denominator + 1)
                   (bestNumerator, bestDenominator, bestError))
      else (bestNumerator, bestDenominator, bestError))"
  by pat_completeness auto
termination
  by (relation "measure (\<lambda>(f, m, d, b). Suc m - d)") auto

text \<open>
  \<open>decimalToFraction\<close>.  The first line of the source returns the empty string for NaN
  and the infinities; a rational is always finite, so the model starts at the sign.
\<close>

definition decimalToFraction :: "rat \<Rightarrow> nat \<Rightarrow> string" where
  "decimalToFraction decimal0 maxDenominator =
     (let sign = (if decimal0 < 0 then ''-'' else '''');
          decimal = \<bar>decimal0\<bar>;
          wholePart = \<lfloor>decimal\<rfloor>;
          fractionalPart = decimal - of_int wholePart
      in if fractionalPart = 0 then sign @ show_int wholePart
         else
           (case scanDenominators fractionalPart maxDenominator 1 (0, 1, fractionalPart) of
              (bestNumerator, bestDenominator, bestError) \<Rightarrow>
                (let gcd = findGCD bestNumerator (int bestDenominator);
                     bestNumerator = bestNumerator div gcd;
                     bestDenominator = int bestDenominator div gcd
                 in if wholePart = 0
                    then sign @ show_int bestNumerator @ ''/'' @ show_int bestDenominator
                    else sign @ show_int wholePart @ ''-'' @ show_int bestNumerator
                           @ ''/'' @ show_int bestDenominator)))"

text \<open>\<open>formatFractionString\<close>, with the default \<open>maxDenominator = 16\<close>.\<close>

definition formatFractionString :: "string \<Rightarrow> string" where
  "formatFractionString fractionStr =
     (case fractionToDecimal fractionStr of
        None \<Rightarrow> fractionStr
      | Some decimal \<Rightarrow> decimalToFraction decimal 16)"

section \<open>RenderEngine (drawing-utils.ts and drawing-utils.optimized.ts)\<close>

subsection \<open>Scale-to-fit layout of drawStoneMockup\<close>




subsection \<open>The 2D context: pen state, current path, stroke calls\<close>










subsection \<open>drawing-utils.optimized.ts\<close>



subsection \<open>drawing-utils.ts\<close>










section \<open>ExportPipeline (the batched export module, src/unnamed/part_006)\<close>

subsection \<open>Inputs\<close>

text \<open>
  A dimension printed in a title is \<open>specs.displayWidth || specs.width\<close>: the display
  string when it is non-empty, the number otherwise.
\<close>

datatype dim = DimText string | DimNum rat

text \<open>
  The specification object as the export functions read it (\<open>specs: any\<close>): an absent
  \<open>displayWidth\<close>, \<open>displayHeight\<close> or \<open>notes\<close> is the empty string, an absent
  \<open>polishedEdges\<close> is \<open>None\<close>, an absent \<open>quantity\<close> is 0.
\<close>

record export_specs =
  specWidth :: rat
  specHeight :: rat
  displayWidth :: string
  displayHeight :: string
  materialType :: string
  thickness :: string
  quantity :: nat
  polishedEdges :: "string list option"
  specNotes :: string

text \<open>An element of \<open>specsArray\<close>: a piece \<open>{id, specs, notes}\<close> or a bare specification.\<close>

datatype export_item = PieceItem string export_specs string | SpecsItem export_specs

text \<open>
  A canvas, by what happens when its image is embedded: \<open>toDataURL\<close> returns a data URL
  that \<open>addImage\<close> accepts, \<open>toDataURL\<close> throws, or \<open>addImage\<close> throws on the data URL.
  A \<open>null\<close> or \<open>undefined\<close> entry of the canvases array is \<open>None\<close>.
\<close>

datatype canvas = Canvas string | ConvertThrows | EmbedThrows string

text \<open>What the host supplies: the date string, the platform flag and the user-agent test.\<close>

record host =
  today :: string
  isMobile :: bool
  isIOS :: bool

subsection \<open>The document: the calls made on the jsPDF object, in order\<close>

datatype pdf_text =
    StoneProjectTitle string
  | DateLine string
  | TotalPiecesLine nat
  | StoneMockupTitle dim dim
  | PieceTitle nat dim dim
  | MaterialLine string
  | ThicknessLine string
  | QuantityLine nat
  | PolishedEdgesLine string
  | NotesLabel
  | NotesLines "string list"
  | PlainText string

datatype pdf_op =
    SetFontSize nat
  | Text pdf_text nat nat
  | AddPage
  | AddImage string nat nat nat nat
  | SetTextColor nat nat nat

text \<open>
  Everything an export call does that is visible outside it, in order: console output,
  the construction of the jsPDF object, calls on it, timers (\<open>SetTimeout ms\<close> returns
  control to the host until the timer fires) and the delivery steps.
\<close>

datatype export_event =
    ConsoleError string
  | NewPdf
  | PdfOp pdf_op
  | SetTimeout nat
  | Save string
  | OutputDataUri
  | AppendIframe
  | WindowOpen
  | RemoveIframe

datatype outcome = Resolved | Rejected string

definition PDF_MARGINS_left :: nat where "PDF_MARGINS_left = 14"
definition PDF_MARGINS_top :: nat where "PDF_MARGINS_top = 20"
definition IMAGE_SIZE_width :: nat where "IMAGE_SIZE_width = 180"
definition IMAGE_SIZE_height :: nat where "IMAGE_SIZE_height = 120"
definition MAX_TEXT_WIDTH :: nat where "MAX_TEXT_WIDTH = 180"

text \<open>
  \<open>PDF_CONFIG\<close> is \<open>{orientation: 'landscape', unit: 'mm', format: 'a4'}\<close>: the page
  is an A4 sheet on its side, 297 mm wide and 210 mm high.
\<close>

definition PAGE_width :: nat where "PAGE_width = 297"
definition PAGE_height :: nat where "PAGE_height = 210"

subsection \<open>Text helpers\<close>

text \<open>\<open>xs.join(', ')\<close>\<close>

fun join_comma :: "string list \<Rightarrow> string" where
  "join_comma [] = []"
| "join_comma [x] = x"
| "join_comma (x # y # xs) = x @ '', '' @ join_comma (y # xs)"

definition polishedEdgesText :: "export_specs \<Rightarrow> pdf_text" where
  "polishedEdgesText specs =
     (case polishedEdges specs of
        Some edges \<Rightarrow> PolishedEdgesLine (join_comma edges)
      | None \<Rightarrow> PolishedEdgesLine ''None'')"

definition display_dim :: "string \<Rightarrow> rat \<Rightarrow> dim" where
  "display_dim shown n = (if shown \<noteq> [] then DimText shown else DimNum n)"

text \<open>\<open>specs.quantity || 1\<close>\<close>

definition quantity_or_1 :: "export_specs \<Rightarrow> nat" where
  "quantity_or_1 specs = (if quantity specs \<noteq> 0 then quantity specs else 1)"

text \<open>\<open>s.replace(/\s+/g, '-')\<close> and \<open>s.toLowerCase()\<close> (on ASCII letters).\<close>

function replace_ws_runs :: "string \<Rightarrow> string" where
  "replace_ws_runs [] = []"
| "replace_ws_runs (c # cs) =
     (if is_space c then CHR ''-'' # replace_ws_runs (dropWhile is_space cs)
      else c # replace_ws_runs cs)"
  by pat_completeness auto
termination
  by (relation "measure length") (auto simp: length_dropWhile_le less_Suc_eq_le)

definition to_lower :: "char \<Rightarrow> char" where
  "to_lower c = (if 65 \<le> (of_char c :: nat) \<and> (of_char c :: nat) \<le> 90
     then char_of ((of_char c :: nat) + 32) else c)"

subsection \<open>Single-piece document\<close>

text \<open>
  \<open>createSinglePiecePDF\<close>.  \<open>split\<close> is jsPDF's \<open>splitTextToSize\<close>, the word wrap of
  the notes at a width; the list returned is the document built.
\<close>

definition createSinglePiecePDF ::
  "(string \<Rightarrow> nat \<Rightarrow> string list) \<Rightarrow> string \<Rightarrow> export_specs \<Rightarrow> string \<Rightarrow> pdf_op list" where
  "createSinglePiecePDF split imgData specs notes =
     (let dw = display_dim (displayWidth specs) (specWidth specs);
          dh = display_dim (displayHeight specs) (specHeight specs);
          head_ops =
            [SetFontSize 18,
             Text (StoneMockupTitle dw dh) PDF_MARGINS_left PDF_MARGINS_top,
             SetFontSize 12,
             Text (MaterialLine (materialType specs)) PDF_MARGINS_left (PDF_MARGINS_top + 10),
             Text (ThicknessLine (thickness specs)) PDF_MARGINS_left (PDF_MARGINS_top + 17),
             Text (QuantityLine (quantity_or_1 specs)) PDF_MARGINS_left (PDF_MARGINS_top + 24),
             Text (polishedEdgesText specs) PDF_MARGINS_left (PDF_MARGINS_top + 31)];
          yPosition = PDF_MARGINS_top + 45
      in if js_trim notes \<noteq> [] then
           (let textLines = split notes MAX_TEXT_WIDTH
            in head_ops @
               [Text NotesLabel PDF_MARGINS_left (PDF_MARGINS_top + 38),
                Text (NotesLines textLines) PDF_MARGINS_left (PDF_MARGINS_top + 45),
                AddImage imgData PDF_MARGINS_left
                  (yPosition + min (length textLines * 5) 60)
                  IMAGE_SIZE_width IMAGE_SIZE_height])
         else head_ops @
              [AddImage imgData PDF_MARGINS_left yPosition IMAGE_SIZE_width IMAGE_SIZE_height])"

text \<open>The images of a document, each with its top edge and its bottom edge.\<close>

fun image_extents :: "pdf_op list \<Rightarrow> (nat \<times> nat) list" where
  "image_extents [] = []"
| "image_extents (AddImage d px py w h # ops) = (py, py + h) # image_extents ops"
| "image_extents (_ # ops) = image_extents ops"

subsection \<open>Multi-piece document\<close>

definition addProjectInfoToPDF :: "host \<Rightarrow> string \<Rightarrow> nat \<Rightarrow> pdf_op list" where
  "addProjectInfoToPDF h projectName totalPieces =
     [SetFontSize 20,
      Text (StoneProjectTitle projectName) PDF_MARGINS_left PDF_MARGINS_top,
      SetFontSize 12,
      Text (DateLine (today h)) PDF_MARGINS_left (PDF_MARGINS_top + 10),
      Text (TotalPiecesLine totalPieces) PDF_MARGINS_left (PDF_MARGINS_top + 17)]"

text \<open>\<open>item.specs || item\<close> and \<open>item.notes || specs.notes\<close>\<close>

fun item_specs :: "export_item \<Rightarrow> export_specs" where
  "item_specs (PieceItem i specs notes) = specs"
| "item_specs (SpecsItem specs) = specs"

fun item_notes :: "export_item \<Rightarrow> string" where
  "item_notes (PieceItem i specs notes) = (if notes \<noteq> [] then notes else specNotes specs)"
| "item_notes (SpecsItem specs) = specNotes specs"

text \<open>
  The image slot of \<open>addPieceToPDF\<close>: the image, or a red message where the canvas is
  missing or the \<open>try\<close> block throws (the \<open>catch\<close> also logs to the console).
\<close>

fun image_slot :: "canvas option \<Rightarrow> nat \<Rightarrow> nat \<Rightarrow> export_event list" where
  "image_slot (Some (Canvas imgData)) index imgYPosition =
     [PdfOp (AddImage imgData PDF_MARGINS_left imgYPosition IMAGE_SIZE_width IMAGE_SIZE_height)]"
| "image_slot (Some ConvertThrows) index imgYPosition =
     [ConsoleError (''Error adding image for piece '' @ show_nat (index + 1) @ '':''),
      PdfOp (SetTextColor 255 0 0),
      PdfOp (Text (PlainText ''Error: Could not render preview image'')
               PDF_MARGINS_left (imgYPosition + 60)),
      PdfOp (SetTextColor 0 0 0)]"
| "image_slot (Some (EmbedThrows imgData)) index imgYPosition =
     [ConsoleError (''Error adding image for piece '' @ show_nat (index + 1) @ '':''),
      PdfOp (SetTextColor 255 0 0),
      PdfOp (Text (PlainText ''Error: Could not render preview image'')
               PDF_MARGINS_left (imgYPosition + 60)),
      PdfOp (SetTextColor 0 0 0)]"
| "image_slot None index imgYPosition =
     [PdfOp (SetTextColor 255 0 0),
      PdfOp (Text (PlainText ''Error: Preview image not available'')
               PDF_MARGINS_left (imgYPosition + 60)),
      PdfOp (SetTextColor 0 0 0)]"

definition addPieceToPDF ::
  "(string \<Rightarrow> nat \<Rightarrow> string list) \<Rightarrow> canvas option \<Rightarrow> export_item \<Rightarrow> nat \<Rightarrow> bool
     \<Rightarrow> export_event list" where
  "addPieceToPDF split cv item index isFirstPage =
     (let specs = item_specs item;
          dw = display_dim (displayWidth specs) (specWidth specs);
          dh = display_dim (displayHeight specs) (specHeight specs);
          titleY = (if isFirstPage then PDF_MARGINS_top + 35 else PDF_MARGINS_top);
          yStart = (if isFirstPage then titleY + 10 else PDF_MARGINS_top + 10);
          block =
            [PdfOp (SetFontSize 16),
             PdfOp (Text (PieceTitle (index + 1) dw dh) PDF_MARGINS_left titleY),
             PdfOp (SetFontSize 12),
             PdfOp (Text (MaterialLine (materialType specs)) PDF_MARGINS_left yStart),
             PdfOp (Text (ThicknessLine (thickness specs)) PDF_MARGINS_left (yStart + 7)),
             PdfOp (Text (QuantityLine (quantity_or_1 specs)) PDF_MARGINS_left (yStart + 14)),
             PdfOp (Text (polishedEdgesText specs) PDF_MARGINS_left (yStart + 21))];
          itemNotes = item_notes item
      in if js_trim itemNotes \<noteq> [] then
           (let textLines = split itemNotes MAX_TEXT_WIDTH;
                notesHeight = min (length textLines * 5) 60
            in block @
               [PdfOp (Text NotesLabel PDF_MARGINS_left (yStart + 28)),
                PdfOp (Text (NotesLines textLines) PDF_MARGINS_left (yStart + 35))]
               @ image_slot cv index (yStart + 35 + notesHeight))
         else block @ image_slot cv index (yStart + 35))"

definition finalizePDF :: "host \<Rightarrow> string \<Rightarrow> export_event list \<times> outcome" where
  "finalizePDF h projectName =
     (let safeProjectName = map to_lower (replace_ws_runs projectName);
          filename = safeProjectName @ ''-stone-project.pdf''
      in if isMobile h then
           ([OutputDataUri, AppendIframe] @ (if isIOS h then [WindowOpen] else [])
              @ [SetTimeout 1500, RemoveIframe], Resolved)
         else ([Save filename], Resolved))"

text \<open>
  \<open>processBatch\<close>, the closure of \<open>processCanvasesInBatches\<close>, entered with
  \<open>currentIndex\<close>.  One call handles the pieces \<open>currentIndex..endIndex - 1\<close>; the
  \<open>then\<close> of \<open>Promise.all\<close> sets \<open>currentIndex = endIndex\<close> and re-enters through
  \<open>setTimeout(processBatch, 10)\<close>.  The promises of \<open>addPieceToPDF\<close> always resolve,
  so the \<open>catch\<close> of \<open>Promise.all\<close> is never taken.
\<close>

definition batchSize :: nat where "batchSize = 2"

text \<open>The body of \<open>for (let i = currentIndex; i < endIndex; i++)\<close>, and the loop.\<close>

definition loop_body ::
  "(string \<Rightarrow> nat \<Rightarrow> string list) \<Rightarrow> canvas option list \<Rightarrow> export_item list
     \<Rightarrow> nat \<Rightarrow> export_event list" where
  "loop_body split canvases specsArray i =
     (if i > 0 then [PdfOp AddPage] else [])
       @ addPieceToPDF split (canvases ! i) (specsArray ! i) i (i = 0)"

definition batch_events ::
  "(string \<Rightarrow> nat \<Rightarrow> string list) \<Rightarrow> canvas option list \<Rightarrow> export_item list
     \<Rightarrow> nat \<Rightarrow> nat \<Rightarrow> export_event list" where
  "batch_events split canvases specsArray currentIndex endIndex =
     concat (map (loop_body split canvases specsArray) [currentIndex ..< endIndex])"

function processBatch ::
  "(string \<Rightarrow> nat \<Rightarrow> string list) \<Rightarrow> host \<Rightarrow> canvas option list \<Rightarrow> export_item list
     \<Rightarrow> string \<Rightarrow> nat \<Rightarrow> export_event list \<times> outcome" where
  "processBatch split h canvases specsArray projectName currentIndex =
     (let totalPieces = min (length canvases) (length specsArray) in
      if currentIndex \<ge> totalPieces then finalizePDF h projectName
      else
        (let endIndex = min (currentIndex + batchSize) totalPieces;
             rest = processBatch split h canvases specsArray projectName endIndex
         in (batch_events split canvases specsArray currentIndex endIndex
               @ [SetTimeout 10] @ fst rest, snd rest)))"
  by pat_completeness auto
termination
  by (relation "measure (\<lambda>(split, h, canvases, specsArray, projectName, currentIndex).
        min (length canvases) (length specsArray) - currentIndex)")
     (auto simp: batchSize_def)

definition processCanvasesInBatches ::
  "(string \<Rightarrow> nat \<Rightarrow> string list) \<Rightarrow> host \<Rightarrow> canvas option list \<Rightarrow> export_item list
     \<Rightarrow> string \<Rightarrow> export_event list \<times> outcome" where
  "processCanvasesInBatches split h canvases specsArray projectName =
     (let rest = processBatch split h canvases specsArray projectName 0
      in (NewPdf # map PdfOp (addProjectInfoToPDF h projectName (length specsArray)) @ fst rest,
          snd rest))"

definition exportMultipleToPDF ::
  "(string \<Rightarrow> nat \<Rightarrow> string list) \<Rightarrow> host \<Rightarrow> canvas option list \<Rightarrow> export_item list
     \<Rightarrow> string \<Rightarrow> export_event list \<times> outcome" where
  "exportMultipleToPDF split h canvases specsArray projectName =
     (if length canvases = 0 then
        ([ConsoleError ''Error in exportMultipleToPDF:''],
         Rejected ''No canvases provided for PDF export'')
      else if length specsArray = 0 then
        ([ConsoleError ''Error in exportMultipleToPDF:''],
         Rejected ''No specifications provided for PDF export'')
      else
        (let finalProjectName = (if projectName \<noteq> [] then projectName else ''Stone Project'')
         in processCanvasesInBatches split h canvases specsArray finalProjectName))"

subsection \<open>The synchronous export functions (second module in src/lib/fraction-export-utils.ts)\<close>

text \<open>
  The jsPDF calls of the older \<open>exportToPDF\<close>, up to and including \<open>addImage\<close>, for a
  canvas whose image is \<open>imgData\<close>: the image is placed at 85 when there are notes and
  at 65 otherwise.
\<close>

definition sync_exportToPDF_document ::
  "(string \<Rightarrow> nat \<Rightarrow> string list) \<Rightarrow> string \<Rightarrow> export_specs \<Rightarrow> string \<Rightarrow> pdf_op list" where
  "sync_exportToPDF_document split imgData specs notes =
     (let dw = display_dim (displayWidth specs) (specWidth specs);
          dh = display_dim (displayHeight specs) (specHeight specs);
          head_ops =
            [SetFontSize 18,
             Text (StoneMockupTitle dw dh) 14 20,
             SetFontSize 12,
             Text (MaterialLine (materialType specs)) 14 30,
             Text (ThicknessLine (thickness specs)) 14 37,
             Text (QuantityLine (quantity_or_1 specs)) 14 44,
             Text (polishedEdgesText specs) 14 51];
          notes_ops =
            (if js_trim notes \<noteq> [] then
               [Text NotesLabel 14 58, Text (NotesLines (split notes 180)) 14 65]
             else []);
          yPosition = (if js_trim notes \<noteq> [] then 85 else 65)
      in head_ops @ notes_ops @ [AddImage imgData 14 yPosition 180 120])"

text \<open>
  The body of \<open>specsArray.forEach((item, index) => ...)\<close> in the older
  \<open>exportMultipleToPDF\<close>; \<open>canvases[index]\<close> is \<open>undefined\<close> past the end of the array.
  The image slot is the same code as in \<open>addPieceToPDF\<close>.
\<close>

definition sync_forEach_body ::
  "(string \<Rightarrow> nat \<Rightarrow> string list) \<Rightarrow> canvas option list \<Rightarrow> export_item \<Rightarrow> nat
     \<Rightarrow> export_event list" where
  "sync_forEach_body split canvases item index =
     (let specs = item_specs item;
          first_ops = (if index > 0 then [PdfOp AddPage] else [PdfOp (Text (PlainText []) 14 45)]);
          dw = display_dim (displayWidth specs) (specWidth specs);
          dh = display_dim (displayHeight specs) (specHeight specs);
          yStart = (if index = 0 then 65 else 30);
          block =
            [PdfOp (SetFontSize 16),
             PdfOp (Text (PieceTitle (index + 1) dw dh) 14 (if index = 0 then 55 else 20)),
             PdfOp (SetFontSize 12),
             PdfOp (Text (MaterialLine (materialType specs)) 14 yStart),
             PdfOp (Text (ThicknessLine (thickness specs)) 14 (yStart + 7)),
             PdfOp (Text (QuantityLine (quantity_or_1 specs)) 14 (yStart + 14)),
             PdfOp (Text (polishedEdgesText specs) 14 (yStart + 21))];
          itemNotes = item_notes item;
          cv = (if index < length canvases then canvases ! index else None)
      in if js_trim itemNotes \<noteq> [] then
           (let textLines = split itemNotes 180
            in first_ops @ block @
               [PdfOp (Text NotesLabel 14 (yStart + 28)),
                PdfOp (Text (NotesLines textLines) 14 (yStart + 35))]
               @ image_slot cv index (yStart + 35 + length textLines * 5))
         else first_ops @ block @ image_slot cv index (yStart + 35))"

definition sync_exportMultipleToPDF ::
  "(string \<Rightarrow> nat \<Rightarrow> string list) \<Rightarrow> host \<Rightarrow> canvas option list \<Rightarrow> export_item list
     \<Rightarrow> string \<Rightarrow> export_event list \<times> outcome" where
  "sync_exportMultipleToPDF split h canvases specsArray projectName0 =
     (if length canvases = 0 then ([], Rejected ''No canvases provided for PDF export'')
      else if length specsArray = 0 then
        ([], Rejected ''No specifications provided for PDF export'')
      else
        (let projectName = (if projectName0 \<noteq> [] then projectName0 else ''Stone Project'');
             header =
               [NewPdf,
                PdfOp (SetFontSize 20),
                PdfOp (Text (StoneProjectTitle projectName) 14 20),
                PdfOp (SetFontSize 12),
                PdfOp (Text (DateLine (today h)) 14 30),
                PdfOp (Text (TotalPiecesLine (length specsArray)) 14 37)];
             pieces = concat (map (\<lambda>index.
                 sync_forEach_body split canvases (specsArray ! index) index)
                 [0 ..< length specsArray]);
             safeProjectName = map to_lower (replace_ws_runs projectName);
             filename = safeProjectName @ ''-stone-project.pdf'';
             delivery =
               (if isMobile h then
                  [OutputDataUri, AppendIframe] @ (if isIOS h then [WindowOpen] else [])
                    @ [SetTimeout 1000, RemoveIframe]
                else [Save filename])
         in (header @ pieces @ delivery, Resolved)))"

subsection \<open>Reading a trace\<close>

text \<open>The calls made on the jsPDF object.\<close>

fun pdf_ops :: "export_event list \<Rightarrow> pdf_op list" where
  "pdf_ops [] = []"
| "pdf_ops (PdfOp op # es) = op # pdf_ops es"
| "pdf_ops (_ # es) = pdf_ops es"

fun is_piece_title :: "pdf_op \<Rightarrow> bool" where
  "is_piece_title (Text (PieceTitle n dw dh) px py) = True"
| "is_piece_title _ = False"

fun is_placeholder :: "pdf_op \<Rightarrow> bool" where
  "is_placeholder (Text (PlainText t) px py) =
     (t = ''Error: Could not render preview image'' \<or> t = ''Error: Preview image not available'')"
| "is_placeholder _ = False"

fun is_image :: "pdf_op \<Rightarrow> bool" where
  "is_image (AddImage d px py w h) = True"
| "is_image _ = False"

text \<open>The numbers of the pieces whose title block a list of events writes.\<close>

fun titled_pieces :: "export_event list \<Rightarrow> nat list" where
  "titled_pieces [] = []"
| "titled_pieces (PdfOp (Text (PieceTitle n dw dh) px py) # es) = n # titled_pieces es"
| "titled_pieces (_ # es) = titled_pieces es"

text \<open>
  The tasks of a trace: the maximal runs of events between two returns to the host
  (\<open>SetTimeout\<close>).  Each run executes without interruption on the single thread.
\<close>

fun tasks :: "export_event list \<Rightarrow> export_event list list" where
  "tasks [] = [[]]"
| "tasks (SetTimeout ms # es) = [] # tasks es"
| "tasks (e # es) = (case tasks es of t # ts \<Rightarrow> (e # t) # ts | [] \<Rightarrow> [[e]])"

text \<open>A piece's slot shows its image, or shows a placeholder message in its place.\<close>

definition shows_image :: "pdf_op list \<Rightarrow> bool" where
  "shows_image ops = (length (filter is_image ops) = 1 \<and> filter is_placeholder ops = [])"

definition shows_placeholder :: "pdf_op list \<Rightarrow> bool" where
  "shows_placeholder ops = (filter is_image ops = [] \<and> length (filter is_placeholder ops) = 1)"

text \<open>A list cut into consecutive batches of two (the last batch may hold one element).\<close>

fun batches_of_2 :: "'a list \<Rightarrow> 'a list list" where
  "batches_of_2 [] = []"
| "batches_of_2 [x] = [[x]]"
| "batches_of_2 (x # y # xs) = [x, y] # batches_of_2 xs"

text \<open>
  The lines of a text, separated by line feeds: what \<open>splitTextToSize\<close> returns for notes
  whose lines are all narrower than the wrap width.
\<close>

fun lines_of :: "string \<Rightarrow> string list" where
  "lines_of [] = [[]]"
| "lines_of (c # cs) =
     (if c = CHR 0x0A then [] # lines_of cs
      else (case lines_of cs of l # ls \<Rightarrow> (c # l) # ls | [] \<Rightarrow> [[c]]))"

definition short_lines_split :: "string \<Rightarrow> nat \<Rightarrow> string list" where
  "short_lines_split s w = lines_of s"

subsection \<open>A sample project\<close>

definition sample_specs :: export_specs where
  "sample_specs = \<lparr>specWidth = 24, specHeight = 4, displayWidth = ''24'', displayHeight = ''4'',
     materialType = ''Quartz'', thickness = ''2cm'', quantity = 1,
     polishedEdges = Some [''top'', ''bottom''], specNotes = []\<rparr>"

definition sample_piece :: export_item where
  "sample_piece = PieceItem ''piece'' sample_specs []"

definition sample_canvas :: "canvas option" where
  "sample_canvas = Some (Canvas ''data:image/png;base64,AAAA'')"

definition desktop :: host where
  "desktop = \<lparr>today = ''1/1/2025'', isMobile = False, isIOS = False\<rparr>"

text \<open>Notes of twelve short lines.\<close>

definition twelve_lines :: string where
  "twelve_lines = concat (replicate 11 (''check seam'' @ [CHR 0x0A])) @ ''check seam''"

section \<open>Verification: FractionMath\<close>

declare show_nat.simps [simp del] gcd_loop.simps [simp del] scanDenominators.simps [simp del]

lemma is_digit_digit_char: "k < 10 \<Longrightarrow> is_digit (digit_char k)"
  by (simp add: is_digit_def digit_char_def)

lemma digit_val_digit_char: "k < 10 \<Longrightarrow> digit_val (digit_char k) = k"
  by (simp add: digit_val_def digit_char_def)

lemma parse_digits_snoc: "parse_digits (xs @ [c]) = 10 * parse_digits xs + digit_val c"
  by (simp add: parse_digits_def)

lemma show_nat_digits: "list_all is_digit (show_nat n)"
proof (induction n rule: show_nat.induct)
  case (1 n)
  show ?case
  proof (cases "n < 10")
    case True
    then show ?thesis by (subst show_nat.simps) (simp add: is_digit_digit_char)
  next
    case False
    with 1 show ?thesis by (subst show_nat.simps) (simp add: is_digit_digit_char)
  qed
qed

lemma show_nat_nonempty: "show_nat n \<noteq> []"
  by (subst show_nat.simps) simp

lemma is_digits_show_nat: "is_digits (show_nat n)"
  by (simp add: is_digits_def show_nat_digits show_nat_nonempty)

lemma parse_show_nat: "parse_digits (show_nat n) = n"
proof (induction n rule: show_nat.induct)
  case (1 n)
  show ?case
  proof (cases "n < 10")
    case True
    then show ?thesis
      by (subst show_nat.simps) (simp add: parse_digits_def digit_val_digit_char)
  next
    case False
    with 1 show ?thesis
      by (subst show_nat.simps) (simp add: parse_digits_snoc digit_val_digit_char)
  qed
qed

lemma digit_not_special:
  "is_digit c \<Longrightarrow> \<not> is_space c \<and> c \<noteq> CHR ''/'' \<and> c \<noteq> CHR ''-''"
  by (auto simp: is_digit_def is_space_def)

lemma gcd_loop_gcd: "gcd_loop a b = gcd a b"
proof (induction a b rule: gcd_loop.induct)
  case (1 a b)
  show ?case
  proof (cases "b = 0")
    case True
    then show ?thesis by (subst gcd_loop.simps) simp
  next
    case False
    with 1 show ?thesis
      by (subst gcd_loop.simps) (simp add: gcd.commute gcd_red_nat [symmetric])
  qed
qed


lemma digits_no_space: "list_all is_digit s \<Longrightarrow> list_all (\<lambda>c. \<not> is_space c) s"
  by (induction s) (auto simp: digit_not_special)

lemma js_trim_id: "list_all (\<lambda>c. \<not> is_space c) s \<Longrightarrow> js_trim s = s"
proof (cases s)
  case Nil
  then show ?thesis by (simp add: js_trim_def)
next
  case (Cons a t)
  assume h: "list_all (\<lambda>c. \<not> is_space c) s"
  have 1: "dropWhile is_space s = s" using h Cons by simp
  have "rev s \<noteq> []" using Cons by simp
  moreover have "\<not> is_space (hd (rev s))"
    using h Cons by (metis hd_rev last_in_set list.distinct(1) list_all_iff)
  ultimately have 2: "dropWhile is_space (rev s) = rev s"
    by (cases "rev s") auto
  show ?thesis by (simp add: js_trim_def 1 2)
qed

lemma remove_ws_id: "list_all (\<lambda>c. \<not> is_space c) s \<Longrightarrow> remove_ws s = s"
  by (induction s) (auto simp: remove_ws_def)

lemma before_sep_app:
  "list_all (\<lambda>x. x \<noteq> c) a \<Longrightarrow> before_sep c (a @ c # b) = a"
  by (induction a) (auto simp: before_sep_def)

lemma after_sep_app:
  "list_all (\<lambda>x. x \<noteq> c) a \<Longrightarrow> after_sep c (a @ c # b) = b"
  by (induction a) (auto simp: after_sep_def)

lemma digits_no_slash: "list_all is_digit s \<Longrightarrow> list_all (\<lambda>x. x \<noteq> CHR ''/'') s"
  by (induction s) (auto simp: digit_not_special)

lemma digits_no_dash: "list_all is_digit s \<Longrightarrow> list_all (\<lambda>x. x \<noteq> CHR ''-'') s"
  by (induction s) (auto simp: digit_not_special)

lemma not_digit_slash: "\<not> is_digit CHR ''/''" and not_digit_dash: "\<not> is_digit CHR ''-''"
  and not_space_slash: "\<not> is_space CHR ''/''" and not_space_dash: "\<not> is_space CHR ''-''"
  by (simp_all add: is_digit_def is_space_def)

lemma parse_whole:
  assumes "is_digits a"
  shows "fractionToDecimal a = Some (of_nat (parse_digits a))"
proof -
  have ns: "list_all (\<lambda>c. \<not> is_space c) a"
    using assms by (simp add: is_digits_def digits_no_space)
  have "remove_ws (js_trim a) = a" by (simp add: js_trim_id remove_ws_id ns)
  moreover have "a \<noteq> []" using assms by (simp add: is_digits_def)
  ultimately show ?thesis using assms by (simp add: fractionToDecimal_def)
qed

lemma match_simple_app:
  assumes "is_digits a" "is_digits b"
  shows "match_simple (a @ CHR ''/'' # b)"
    and "\<not> is_digits (a @ CHR ''/'' # b)"
    and "before_sep CHR ''/'' (a @ CHR ''/'' # b) = a"
    and "after_sep CHR ''/'' (a @ CHR ''/'' # b) = b"
  using assms
  by (simp_all add: match_simple_def is_digits_def before_sep_app after_sep_app
      digits_no_slash not_digit_slash)

lemma parse_simple:
  assumes "is_digits a" "is_digits b" "parse_digits b \<noteq> 0"
  shows "fractionToDecimal (a @ CHR ''/'' # b)
         = Some (of_nat (parse_digits a) / of_nat (parse_digits b))"
proof -
  let ?s = "a @ CHR ''/'' # b"
  have ns: "list_all (\<lambda>c. \<not> is_space c) ?s"
    using assms by (simp add: is_digits_def digits_no_space not_space_slash)
  have c: "remove_ws (js_trim ?s) = ?s" by (simp only: js_trim_id [OF ns] remove_ws_id [OF ns])
  show ?thesis
    unfolding fractionToDecimal_def c Let_def
    using assms match_simple_app [OF assms(1,2)] by simp
qed

lemma parse_mixed:
  assumes "is_digits w" "is_digits a" "is_digits b" "parse_digits b \<noteq> 0"
  shows "fractionToDecimal (w @ CHR ''-'' # a @ CHR ''/'' # b)
         = Some (of_nat (parse_digits w) + of_nat (parse_digits a) / of_nat (parse_digits b))"
proof -
  let ?f = "a @ CHR ''/'' # b"
  let ?s = "w @ CHR ''-'' # ?f"
  have ns: "list_all (\<lambda>c. \<not> is_space c) ?s"
    using assms by (simp add: is_digits_def digits_no_space not_space_slash not_space_dash)
  have c: "remove_ws (js_trim ?s) = ?s" by (simp only: js_trim_id [OF ns] remove_ws_id [OF ns])
  have nd: "\<not> is_digits ?s" by (simp add: is_digits_def not_digit_dash)
  have wd: "list_all (\<lambda>x. x \<noteq> CHR ''/'') w"
    using assms(1) by (simp add: is_digits_def digits_no_slash)
  have "before_sep CHR ''/'' ?s = w @ CHR ''-'' # a"
    using before_sep_app [of "CHR ''/''" "w @ CHR ''-'' # a" b] wd assms(2)
    by (simp add: is_digits_def digits_no_slash)
  then have nsimple: "\<not> match_simple ?s"
    by (simp add: match_simple_def is_digits_def not_digit_dash)
  have b: "before_sep CHR ''-'' ?s = w" and a: "after_sep CHR ''-'' ?s = ?f"
    using assms(1) by (simp_all add: before_sep_app after_sep_app is_digits_def digits_no_dash)
  have mm: "match_mixed ?s"
    using assms match_simple_app [OF assms(2,3)] by (simp add: match_mixed_def a b)
  show ?thesis
    unfolding fractionToDecimal_def c Let_def
    using nd nsimple mm assms(4) match_simple_app [OF assms(2,3)] by (simp add: a b)
qed



lemma round_err_16: "\<bar>(f::rat) - of_int (round (f * 16)) / 16\<bar> \<le> 1 / 32"
proof -
  have "\<bar>of_int (round (f * 16)) - f * 16\<bar> \<le> 1 / 2"
    by (rule of_int_round_abs_le)
  then have "\<bar>f * 16 - of_int (round (f * 16))\<bar> \<le> 1 / 2"
    by (simp only: abs_minus_commute)
  then show ?thesis by (simp add: abs_le_iff field_simps)
qed

lemma scan_step:
  assumes f0: "0 \<le> f"
  shows "1 \<le> den \<Longrightarrow> 0 < bd \<Longrightarrow> 0 \<le> bn \<Longrightarrow> be = \<bar>f - of_int bn / of_nat bd\<bar>
    \<Longrightarrow> \<exists>n' d' e'. scanDenominators f m den (bn, bd, be) = (n', d', e')
        \<and> 0 < d' \<and> 0 \<le> n' \<and> e' = \<bar>f - of_int n' / of_nat d'\<bar> \<and> e' \<le> be
        \<and> (e' < 1 / 10000000
           \<or> (\<forall>k. den \<le> k \<and> k \<le> m \<longrightarrow> e' \<le> \<bar>f - of_int (round (f * of_nat k)) / of_nat k\<bar>))"
proof (induction "Suc m - den" arbitrary: den bn bd be)
  case 0
  then have "\<not> den \<le> m" by simp
  then have "scanDenominators f m den (bn, bd, be) = (bn, bd, be)"
    by (subst scanDenominators.simps) simp
  with 0 \<open>\<not> den \<le> m\<close> show ?case by simp
next
  case (Suc x)
  then have le: "den \<le> m" by simp
  let ?n = "round (f * of_nat den)"
  let ?e = "\<bar>f - of_int ?n / of_nat den\<bar>"
  have n0: "0 \<le> ?n" using f0 by (simp add: round_def)
  have x: "x = Suc m - (den + 1)" using Suc.hyps(2) by simp
  have d1: "1 \<le> den + 1" by simp
  have dpos: "0 < den" using Suc.prems(1) by simp
  show ?case
  proof (cases "?e < be")
    case better: True
    show ?thesis
    proof (cases "?e < 1 / 10000000")
      case True
      then have "scanDenominators f m den (bn, bd, be) = (?n, den, ?e)"
        using le better by (subst scanDenominators.simps) (simp add: Let_def)
      then show ?thesis using True n0 dpos better by simp
    next
      case False
      then have eq: "scanDenominators f m den (bn, bd, be)
          = scanDenominators f m (den + 1) (?n, den, ?e)"
        using le better by (subst scanDenominators.simps) (simp add: Let_def)
      from Suc.hyps(1) [OF x d1 dpos n0 refl]
      obtain n' d' e' where r: "scanDenominators f m (den + 1) (?n, den, ?e) = (n', d', e')"
        "0 < d'" "0 \<le> n'" "e' = \<bar>f - of_int n' / of_nat d'\<bar>" "e' \<le> ?e"
        "e' < 1 / 10000000
           \<or> (\<forall>k. den + 1 \<le> k \<and> k \<le> m \<longrightarrow> e' \<le> \<bar>f - of_int (round (f * of_nat k)) / of_nat k\<bar>)"
        by blast
      have "e' < 1 / 10000000
           \<or> (\<forall>k. den \<le> k \<and> k \<le> m \<longrightarrow> e' \<le> \<bar>f - of_int (round (f * of_nat k)) / of_nat k\<bar>)"
      proof (cases "e' < 1 / 10000000")
        case True then show ?thesis by simp
      next
        case False
        with r(6) have a: "\<forall>k. den + 1 \<le> k \<and> k \<le> m \<longrightarrow> e' \<le> \<bar>f - of_int (round (f * of_nat k)) / of_nat k\<bar>"
          by simp
        have "\<forall>k. den \<le> k \<and> k \<le> m \<longrightarrow> e' \<le> \<bar>f - of_int (round (f * of_nat k)) / of_nat k\<bar>"
        proof (intro allI impI)
          fix k assume k: "den \<le> k \<and> k \<le> m"
          show "e' \<le> \<bar>f - of_int (round (f * of_nat k)) / of_nat k\<bar>"
          proof (cases "k = den")
            case True then show ?thesis using r(5) by simp
          next
            case False
            with k have "den + 1 \<le> k \<and> k \<le> m" by simp
            with a show ?thesis by blast
          qed
        qed
        then show ?thesis by simp
      qed
      with r better show ?thesis unfolding eq by simp
    qed
  next
    case False
    then have eq: "scanDenominators f m den (bn, bd, be)
          = scanDenominators f m (den + 1) (bn, bd, be)"
      using le by (subst scanDenominators.simps) (simp add: Let_def)
    from Suc.hyps(1) [OF x d1 Suc.prems(2) Suc.prems(3) Suc.prems(4)]
    obtain n' d' e' where r: "scanDenominators f m (den + 1) (bn, bd, be) = (n', d', e')"
        "0 < d'" "0 \<le> n'" "e' = \<bar>f - of_int n' / of_nat d'\<bar>" "e' \<le> be"
        "e' < 1 / 10000000
           \<or> (\<forall>k. den + 1 \<le> k \<and> k \<le> m \<longrightarrow> e' \<le> \<bar>f - of_int (round (f * of_nat k)) / of_nat k\<bar>)"
      by blast
    have "e' < 1 / 10000000
           \<or> (\<forall>k. den \<le> k \<and> k \<le> m \<longrightarrow> e' \<le> \<bar>f - of_int (round (f * of_nat k)) / of_nat k\<bar>)"
    proof (cases "e' < 1 / 10000000")
      case True then show ?thesis by simp
    next
      case nf: False
      with r(6) have a: "\<forall>k. den + 1 \<le> k \<and> k \<le> m \<longrightarrow> e' \<le> \<bar>f - of_int (round (f * of_nat k)) / of_nat k\<bar>"
        by simp
      have "\<forall>k. den \<le> k \<and> k \<le> m \<longrightarrow> e' \<le> \<bar>f - of_int (round (f * of_nat k)) / of_nat k\<bar>"
      proof (intro allI impI)
        fix k assume k: "den \<le> k \<and> k \<le> m"
        show "e' \<le> \<bar>f - of_int (round (f * of_nat k)) / of_nat k\<bar>"
        proof (cases "k = den")
          case True then show ?thesis using r(5) False by simp
        next
          case False
          with k have "den + 1 \<le> k \<and> k \<le> m" by simp
          with a show ?thesis by blast
        qed
      qed
      then show ?thesis by simp
    qed
    with r show ?thesis unfolding eq by simp
  qed
qed


lemma show_int_nonneg: "0 \<le> i \<Longrightarrow> show_int i = show_nat (nat i)"
  by (simp add: show_int_def)

lemma reduced_fraction:
  assumes "0 \<le> bn" "0 < bd"
  defines "g \<equiv> findGCD bn (int bd)"
  shows "0 \<le> bn div g" and "0 < int bd div g"
    and "(of_int (bn div g) :: rat) / of_int (int bd div g) = of_int bn / of_nat bd"
proof -
  have g: "g = gcd bn (int bd)"
    using assms(1) by (simp add: g_def findGCD_def gcd_loop_gcd gcd_int_def)
  have gpos: "0 < g" using assms(2) by (simp add: g)
  have d1: "g dvd bn" and d2: "g dvd int bd" by (simp_all add: g)
  show "0 \<le> bn div g" using assms(1) gpos by (simp add: pos_imp_zdiv_nonneg_iff)
  show "0 < int bd div g"
    using d2 gpos assms(2) by (metis dvd_div_eq_0_iff
        int_ops(1) nat_less_le of_nat_less_iff pos_imp_zdiv_nonneg_iff order_less_le)
  obtain a where a: "bn = g * a" using d1 by (auto elim: dvdE)
  obtain b where b: "int bd = g * b" using d2 by (auto elim: dvdE)
  have "(of_int (bn div g) :: rat) / of_int (int bd div g) = of_int a / of_int b"
    using gpos by (simp add: a b)
  also have "\<dots> = of_int (g * a) / of_int (g * b)" using gpos by simp
  also have "\<dots> = of_int bn / of_nat bd" by (metis a b of_int_of_nat_eq)
  finally show "(of_int (bn div g) :: rat) / of_int (int bd div g) = of_int bn / of_nat bd" .
qed


lemma decimalToFraction_nonneg:
  assumes "0 \<le> d" "w = \<lfloor>d\<rfloor>" "f = d - of_int w"
    "scanDenominators f m 1 (0, 1, f) = (bn, bd, be)"
    "N = bn div findGCD bn (int bd)" "D = int bd div findGCD bn (int bd)"
  shows "decimalToFraction d m =
     (if f = 0 then show_int w
      else if w = 0 then show_int N @ ''/'' @ show_int D
      else show_int w @ ''-'' @ show_int N @ ''/'' @ show_int D)"
  using assms by (simp add: decimalToFraction_def Let_def)

text \<open>
  Claim C1.  For every decimal \<open>d\<close> with \<open>0 \<le> d < 1000\<close>, parsing the fraction
  string that \<open>decimalToFraction d 16\<close> produces succeeds, and the number parsed is
  within \<open>1/32\<close> of \<open>d\<close>.
\<close>

theorem fraction_roundtrip_within_32nd:
  assumes "0 \<le> d" "d < 1000"
  shows "\<exists>v. fractionToDecimal (decimalToFraction d 16) = Some v \<and> \<bar>v - d\<bar> \<le> 1 / 32"
proof -
  define w where "w = \<lfloor>d\<rfloor>"
  define f where "f = d - of_int w"
  have w0: "0 \<le> w" using assms(1) by (simp add: w_def)
  have f0: "0 \<le> f" by (simp add: f_def w_def)
  have dw: "d = of_nat (nat w) + f" using w0 by (simp add: f_def)
  from scan_step [OF f0, of 1 1 0 f 16]
  obtain bn bd be where r: "scanDenominators f 16 1 (0, 1, f) = (bn, bd, be)"
    "0 < bd" "0 \<le> bn" "be = \<bar>f - of_int bn / of_nat bd\<bar>"
    "be < 1 / 10000000
       \<or> (\<forall>k. 1 \<le> k \<and> k \<le> 16 \<longrightarrow> be \<le> \<bar>f - of_int (round (f * of_nat k)) / of_nat k\<bar>)"
    using f0 by auto
  define N where "N = bn div findGCD bn (int bd)"
  define D where "D = int bd div findGCD bn (int bd)"
  note dtf = decimalToFraction_nonneg [OF assms(1) w_def f_def r(1) N_def D_def]
  show ?thesis
  proof (cases "f = 0")
    case True
    then have "decimalToFraction d 16 = show_nat (nat w)"
      using w0 by (simp add: dtf show_int_nonneg)
    then have "fractionToDecimal (decimalToFraction d 16) = Some (of_nat (nat w))"
      by (simp add: parse_whole is_digits_show_nat parse_show_nat)
    then show ?thesis using dw True by simp
  next
    case False
    have be: "be \<le> 1 / 32"
    proof (cases "be < 1 / 10000000")
      case True then show ?thesis by simp
    next
      case False
      with r(5) have "\<forall>k. 1 \<le> k \<and> k \<le> 16 \<longrightarrow>
          be \<le> \<bar>f - of_int (round (f * of_nat k)) / of_nat k\<bar>" by simp
      then have "(1::nat) \<le> 16 \<and> (16::nat) \<le> 16 \<longrightarrow>
          be \<le> \<bar>f - of_int (round (f * of_nat 16)) / of_nat 16\<bar>" by (rule spec)
      then have "be \<le> \<bar>f - of_int (round (f * 16)) / 16\<bar>" by simp
      then show ?thesis using round_err_16 [of f] by simp
    qed
    have N0: "0 \<le> N" and D0: "0 < D" and ND: "(of_int N :: rat) / of_int D = of_int bn / of_nat bd"
      using reduced_fraction [OF r(3) r(2)] by (simp_all add: N_def D_def)
    have pD: "parse_digits (show_nat (nat D)) \<noteq> 0" using D0 by (simp add: parse_show_nat)
    have q: "(of_nat (nat N) :: rat) / of_nat (nat D) = of_int bn / of_nat bd"
      using N0 D0 ND by simp
    show ?thesis
    proof (cases "w = 0")
      case True
      have "decimalToFraction d 16 = show_nat (nat N) @ CHR ''/'' # show_nat (nat D)"
        using False True N0 D0 by (simp add: dtf show_int_nonneg)
      then have "fractionToDecimal (decimalToFraction d 16)
          = Some (of_nat (nat N) / of_nat (nat D))"
        using parse_simple [OF is_digits_show_nat is_digits_show_nat pD]
        by (simp add: parse_show_nat)
      moreover have "\<bar>of_int bn / of_nat bd - d\<bar> \<le> 1 / 32"
        using be r(4) dw True by (simp add: abs_minus_commute)
      ultimately show ?thesis by (simp add: q)
    next
      case wn: False
      have "decimalToFraction d 16
          = show_nat (nat w) @ CHR ''-'' # show_nat (nat N) @ CHR ''/'' # show_nat (nat D)"
        using False wn N0 D0 w0 by (simp add: dtf show_int_nonneg)
      then have "fractionToDecimal (decimalToFraction d 16)
          = Some (of_nat (nat w) + of_nat (nat N) / of_nat (nat D))"
        using parse_mixed [OF is_digits_show_nat is_digits_show_nat is_digits_show_nat pD]
        by (simp add: parse_show_nat)
      moreover have "\<bar>of_nat (nat w) + of_int bn / of_nat bd - d\<bar> \<le> 1 / 32"
        using be r(4) dw by (simp add: abs_minus_commute)
      ultimately show ?thesis by (simp add: q)
    qed
  qed
qed

theorem fraction_roundtrip_within_32nd_witness:
  "(0::rat) \<le> 5/2 \<and> (5/2::rat) < 1000
   \<and> (\<exists>v. fractionToDecimal (decimalToFraction (5/2) 16) = Some v \<and> \<bar>v - 5/2\<bar> \<le> 1 / 32)"
  using fraction_roundtrip_within_32nd [of "5/2"] by simp



section \<open>Verification: ExportPipeline, multi-piece export\<close>

declare processBatch.simps [simp del]

lemma pdf_ops_append: "pdf_ops (a @ b) = pdf_ops a @ pdf_ops b"
  by (induction a rule: pdf_ops.induct) simp_all

lemma pdf_ops_concat: "pdf_ops (concat xs) = concat (map pdf_ops xs)"
  by (induction xs) (simp_all add: pdf_ops_append)

lemma pdf_ops_map_PdfOp: "pdf_ops (map PdfOp ops) = ops"
  by (induction ops) simp_all

lemma finalizePDF_ops: "pdf_ops (fst (finalizePDF h name)) = []"
  by (simp add: finalizePDF_def Let_def)

lemma finalizePDF_resolved: "snd (finalizePDF h name) = Resolved"
  by (simp add: finalizePDF_def Let_def)

lemma processBatch_unfold:
  assumes "n = min (length cs) (length ps)"
  shows "processBatch split h cs ps name k =
     (if n \<le> k then finalizePDF h name
      else (batch_events split cs ps k (min (k + 2) n) @ [SetTimeout 10]
              @ fst (processBatch split h cs ps name (min (k + 2) n)),
            snd (processBatch split h cs ps name (min (k + 2) n))))"
  unfolding assms
  by (subst processBatch.simps) (simp add: Let_def batchSize_def)

lemma processBatch_resolved: "snd (processBatch split h cs ps name k) = Resolved"
proof -
  define n where "n = min (length cs) (length ps)"
  show ?thesis
  proof (induction "n - k" arbitrary: k rule: less_induct)
    case less
    show ?case
    proof (cases "n \<le> k")
      case True
      then show ?thesis
        by (simp add: processBatch_unfold [OF n_def] finalizePDF_resolved)
    next
      case False
      then have "n - min (k + 2) n < n - k" by arith
      from less [OF this] False show ?thesis
        by (simp add: processBatch_unfold [OF n_def, of _ _ _ k])
    qed
  qed
qed

lemma processBatch_ops:
  assumes n: "n = min (length cs) (length ps)"
  shows "k \<le> n \<Longrightarrow>
   pdf_ops (fst (processBatch split h cs ps name k))
     = concat (map (\<lambda>i. pdf_ops (loop_body split cs ps i)) [k ..< n])"
proof (induction "n - k" arbitrary: k rule: less_induct)
  case less
  show ?case
  proof (cases "n \<le> k")
    case True
    with less.prems have "k = n" by arith
    then show ?thesis
      by (simp add: processBatch_unfold [OF n] finalizePDF_ops)
  next
    case False
    let ?e = "min (k + 2) n"
    have lt: "n - ?e < n - k" using False by arith
    have le: "?e \<le> n" by arith
    have ke: "k \<le> ?e" using less.prems by arith
    have split_range: "[k ..< n] = [k ..< ?e] @ [?e ..< n]"
      using ke le by (metis le_Suc_ex upt_add_eq_append)
    have "pdf_ops (fst (processBatch split h cs ps name k))
        = pdf_ops (batch_events split cs ps k ?e)
          @ pdf_ops (fst (processBatch split h cs ps name ?e))"
      using False by (simp add: processBatch_unfold [OF n, of _ _ _ k] pdf_ops_append)
    also have "\<dots> = concat (map (\<lambda>i. pdf_ops (loop_body split cs ps i)) [k ..< ?e])
          @ concat (map (\<lambda>i. pdf_ops (loop_body split cs ps i)) [?e ..< n])"
      using less.hyps [OF lt le]
      by (simp add: batch_events_def pdf_ops_concat comp_def)
    also have "\<dots> = concat (map (\<lambda>i. pdf_ops (loop_body split cs ps i)) [k ..< n])"
      by (simp only: split_range map_append concat_append)
    finally show ?thesis .
  qed
qed


lemma filter_concat_const:
  "(\<And>i. i \<in> set xs \<Longrightarrow> length (filter P (f i)) = c)
   \<Longrightarrow> length (filter P (concat (map f xs))) = c * length xs"
  by (induction xs) simp_all

lemma image_slot_ops_cases:
  "pdf_ops (image_slot cv i y) =
     (case cv of
        Some (Canvas d) \<Rightarrow> [AddImage d PDF_MARGINS_left y IMAGE_SIZE_width IMAGE_SIZE_height]
      | Some ConvertThrows \<Rightarrow> [SetTextColor 255 0 0,
           Text (PlainText ''Error: Could not render preview image'') PDF_MARGINS_left (y + 60),
           SetTextColor 0 0 0]
      | Some (EmbedThrows d) \<Rightarrow> [SetTextColor 255 0 0,
           Text (PlainText ''Error: Could not render preview image'') PDF_MARGINS_left (y + 60),
           SetTextColor 0 0 0]
      | None \<Rightarrow> [SetTextColor 255 0 0,
           Text (PlainText ''Error: Preview image not available'') PDF_MARGINS_left (y + 60),
           SetTextColor 0 0 0])"
  by (cases "(cv, i, y)" rule: image_slot.cases) simp_all

lemma image_slot_titles: "filter is_piece_title (pdf_ops (image_slot cv i y)) = []"
  by (simp add: image_slot_ops_cases split: option.splits canvas.splits)

lemma image_slot_pages: "filter (\<lambda>op. op = AddPage) (pdf_ops (image_slot cv i y)) = []"
  by (simp add: image_slot_ops_cases split: option.splits canvas.splits)

lemma image_slot_timeout: "SetTimeout ms \<notin> set (image_slot cv i y)"
  by (cases "(cv, i, y)" rule: image_slot.cases) simp_all

lemma addPiece_titles:
  "length (filter is_piece_title (pdf_ops (addPieceToPDF split cv item i first))) = 1"
  by (simp add: addPieceToPDF_def Let_def pdf_ops_append image_slot_titles
      polishedEdgesText_def split: option.splits)

lemma addPiece_pages:
  "filter (\<lambda>op. op = AddPage) (pdf_ops (addPieceToPDF split cv item i first)) = []"
  by (simp add: addPieceToPDF_def Let_def pdf_ops_append image_slot_pages
      polishedEdgesText_def split: option.splits)

lemma loop_body_titles:
  "length (filter is_piece_title (pdf_ops (loop_body split cs ps i))) = 1"
  by (simp add: loop_body_def pdf_ops_append addPiece_titles)

lemma loop_body_pages:
  "length (filter (\<lambda>op. op = AddPage) (pdf_ops (loop_body split cs ps i))) = (if i > 0 then 1 else 0)"
  by (simp add: loop_body_def pdf_ops_append addPiece_pages)

lemma export_ops:
  assumes "cs \<noteq> []" "ps \<noteq> []"
  shows "pdf_ops (fst (exportMultipleToPDF split h cs ps name))
     = addProjectInfoToPDF h (if name \<noteq> [] then name else ''Stone Project'') (length ps)
       @ concat (map (\<lambda>i. pdf_ops (loop_body split cs ps i))
                   [0 ..< min (length cs) (length ps)])"
  using assms
  by (simp add: exportMultipleToPDF_def processCanvasesInBatches_def Let_def pdf_ops_append
      pdf_ops_map_PdfOp processBatch_ops [OF refl] del: upt.simps)

lemma export_resolved:
  assumes "cs \<noteq> []" "ps \<noteq> []"
  shows "snd (exportMultipleToPDF split h cs ps name) = Resolved"
  using assms
  by (simp add: exportMultipleToPDF_def processCanvasesInBatches_def Let_def processBatch_resolved)

lemma header_titles: "filter is_piece_title (addProjectInfoToPDF h name n) = []"
  and header_pages: "filter (\<lambda>op. op = AddPage) (addProjectInfoToPDF h name n) = []"
  and header_slots: "filter (\<lambda>op. is_image op \<or> is_placeholder op) (addProjectInfoToPDF h name n) = []"
  by (simp_all add: addProjectInfoToPDF_def)

lemma pages_upto:
  "length (filter (\<lambda>op. op = AddPage)
      (concat (map (\<lambda>i. pdf_ops (loop_body split cs ps i)) [0 ..< n]))) = n - 1"
proof (cases n)
  case 0
  then show ?thesis by simp
next
  case (Suc m)
  have r: "[0 ..< Suc m] = 0 # [1 ..< Suc m]" by (simp add: upt_rec)
  have "length (filter (\<lambda>op. op = AddPage)
      (concat (map (\<lambda>i. pdf_ops (loop_body split cs ps i)) [1 ..< Suc m]))) = 1 * length [1 ..< Suc m]"
    by (rule filter_concat_const) (auto simp: loop_body_pages)
  then show ?thesis
    unfolding Suc r by (simp add: loop_body_pages del: upt.simps)
qed

lemma titles_upto:
  "length (filter is_piece_title
      (concat (map (\<lambda>i. pdf_ops (loop_body split cs ps i)) [0 ..< n]))) = n"
  using filter_concat_const [of "[0 ..< n]" is_piece_title
      "\<lambda>i. pdf_ops (loop_body split cs ps i)" 1]
  by (simp add: loop_body_titles)


lemma tasks_nonempty: "tasks es \<noteq> []"
  by (induction es rule: tasks.induct) (auto split: list.splits)

lemma tasks_Cons_other:
  "(\<And>ms. e \<noteq> SetTimeout ms) \<Longrightarrow> tasks (e # es) = (e # hd (tasks es)) # tl (tasks es)"
  using tasks_nonempty [of es] by (cases e; cases "tasks es") auto

lemma tasks_prefix:
  "(\<And>ms. SetTimeout ms \<notin> set a)
   \<Longrightarrow> tasks (a @ es) = (a @ hd (tasks es)) # tl (tasks es)"
proof (induction a)
  case Nil
  then show ?case using tasks_nonempty [of es] by simp
next
  case (Cons e a)
  have ne: "\<And>ms. e \<noteq> SetTimeout ms" using Cons.prems by auto
  have "\<And>ms. SetTimeout ms \<notin> set a" using Cons.prems by auto
  from Cons.IH [OF this] show ?case
    by (simp add: tasks_Cons_other [OF ne])
qed

lemma tasks_batch:
  "(\<And>ms. SetTimeout ms \<notin> set a) \<Longrightarrow> tasks (a @ SetTimeout m # es) = a # tasks es"
  by (simp add: tasks_prefix)

lemma titled_pieces_append: "titled_pieces (a @ b) = titled_pieces a @ titled_pieces b"
  by (induction a rule: titled_pieces.induct) simp_all

lemma titled_pieces_concat: "titled_pieces (concat xs) = concat (map titled_pieces xs)"
  by (induction xs) (simp_all add: titled_pieces_append)

lemma image_slot_titled: "titled_pieces (image_slot cv i y) = []"
  by (cases "(cv, i, y)" rule: image_slot.cases) simp_all

lemma addPiece_titled: "titled_pieces (addPieceToPDF split cv item i first) = [i + 1]"
  by (simp add: addPieceToPDF_def Let_def titled_pieces_append image_slot_titled
      polishedEdgesText_def split: option.splits)

lemma loop_body_titled: "titled_pieces (loop_body split cs ps i) = [Suc i]"
  by (simp add: loop_body_def titled_pieces_append addPiece_titled)

lemma addPiece_no_timeout: "SetTimeout ms \<notin> set (addPieceToPDF split cv item i first)"
  by (simp add: addPieceToPDF_def Let_def image_slot_timeout)

lemma loop_body_no_timeout: "SetTimeout ms \<notin> set (loop_body split cs ps i)"
  by (simp add: loop_body_def addPiece_no_timeout)

lemma batch_no_timeout: "SetTimeout ms \<notin> set (batch_events split cs ps k e)"
  by (simp add: batch_events_def loop_body_no_timeout)

lemma batch_titled: "titled_pieces (batch_events split cs ps k e) = map Suc [k ..< e]"
proof -
  have "concat (map (\<lambda>i. [Suc i]) xs) = map Suc xs" for xs :: "nat list"
    by (induction xs) simp_all
  then show ?thesis
    by (simp add: batch_events_def titled_pieces_concat comp_def loop_body_titled)
qed

lemma finalize_tasks:
  "map titled_pieces (tasks (fst (finalizePDF h name))) = (if isMobile h then [[], []] else [[]])"
  by (simp add: finalizePDF_def Let_def)

lemma batches_step:
  assumes "k < n"
  shows "batches_of_2 (map Suc [k ..< n])
     = map Suc [k ..< min (k + 2) n] # batches_of_2 (map Suc [min (k + 2) n ..< n])"
proof (cases "k + 2 \<le> n")
  case True
  then have "[k ..< n] = k # Suc k # [k + 2 ..< n]" by (simp add: upt_rec [of k] upt_rec [of "Suc k"])
  moreover have "min (k + 2) n = k + 2" using True by simp
  moreover have "[k ..< k + 2] = [k, Suc k]" by (simp add: upt_rec)
  ultimately show ?thesis by simp
next
  case False
  with assms have n: "n = Suc k" by simp
  then show ?thesis by (simp add: min_def)
qed

lemma processBatch_tasks:
  assumes n: "n = min (length cs) (length ps)"
  shows "k \<le> n \<Longrightarrow>
    map titled_pieces (tasks (fst (processBatch split h cs ps name k)))
      = batches_of_2 (map Suc [k ..< n]) @ (if isMobile h then [[], []] else [[]])"
proof (induction "n - k" arbitrary: k rule: less_induct)
  case less
  show ?case
  proof (cases "n \<le> k")
    case True
    with less.prems have "k = n" by arith
    then show ?thesis
      by (simp add: processBatch_unfold [OF n] finalize_tasks)
  next
    case False
    let ?e = "min (k + 2) n"
    have lt: "n - ?e < n - k" using False by arith
    have le: "?e \<le> n" by arith
    have kn: "k < n" using False by simp
    have "tasks (fst (processBatch split h cs ps name k))
        = batch_events split cs ps k ?e # tasks (fst (processBatch split h cs ps name ?e))"
      using False
      by (simp add: processBatch_unfold [OF n, of _ _ _ k] tasks_batch batch_no_timeout)
    then show ?thesis
      using less.hyps [OF lt le]
      by (simp only: list.map batch_titled batches_step [OF kn] append_Cons)
  qed
qed


text \<open>
  Claim C3.  When the canvases list or the pieces list is empty, \<open>exportMultipleToPDF\<close>
  is rejected with a validation error, and no jsPDF object has been constructed and no
  call has been made on one; this holds for the batched and for the synchronous export.
\<close>

theorem exportMultiple_empty_input_rejected:
  assumes "length cs = 0 \<or> length ps = 0"
  shows "(\<exists>msg. snd (exportMultipleToPDF split h cs ps name) = Rejected msg)
     \<and> NewPdf \<notin> set (fst (exportMultipleToPDF split h cs ps name))
     \<and> pdf_ops (fst (exportMultipleToPDF split h cs ps name)) = []
     \<and> (\<exists>msg. snd (sync_exportMultipleToPDF split h cs ps name) = Rejected msg)
     \<and> fst (sync_exportMultipleToPDF split h cs ps name) = []"
  using assms by (auto simp: exportMultipleToPDF_def sync_exportMultipleToPDF_def)

theorem exportMultiple_empty_input_rejected_witness:
  "(length ([] :: canvas option list) = 0 \<or> length [sample_piece] = 0)
   \<and> (\<exists>msg. snd (exportMultipleToPDF short_lines_split desktop [] [sample_piece] ''Kitchen'')
          = Rejected msg)
   \<and> NewPdf \<notin> set (fst (exportMultipleToPDF short_lines_split desktop [] [sample_piece] ''Kitchen''))
   \<and> pdf_ops (fst (exportMultipleToPDF short_lines_split desktop [] [sample_piece] ''Kitchen'')) = []
   \<and> (\<exists>msg. snd (sync_exportMultipleToPDF short_lines_split desktop [] [sample_piece] ''Kitchen'')
          = Rejected msg)
   \<and> fst (sync_exportMultipleToPDF short_lines_split desktop [] [sample_piece] ''Kitchen'') = []"
  using exportMultiple_empty_input_rejected
      [of "[]" "[sample_piece]" short_lines_split desktop "''Kitchen''"]
  by simp

lemma image_slot_images:
  "length (filter is_image (pdf_ops (image_slot cv i y)))
     = (case cv of Some (Canvas d) \<Rightarrow> 1 | _ \<Rightarrow> 0)"
  by (cases "(cv, i, y)" rule: image_slot.cases) simp_all

lemma image_slot_placeholders:
  "length (filter is_placeholder (pdf_ops (image_slot cv i y)))
     = (case cv of Some (Canvas d) \<Rightarrow> 0 | _ \<Rightarrow> 1)"
  by (cases "(cv, i, y)" rule: image_slot.cases) simp_all

lemma image_slot_either:
  "length (filter (\<lambda>op. is_image op \<or> is_placeholder op) (pdf_ops (image_slot cv i y))) = 1"
  by (cases "(cv, i, y)" rule: image_slot.cases) simp_all

lemma addPiece_images:
  "length (filter is_image (pdf_ops (addPieceToPDF split cv item i first)))
     = (case cv of Some (Canvas d) \<Rightarrow> 1 | _ \<Rightarrow> 0)"
  by (simp add: addPieceToPDF_def Let_def pdf_ops_append image_slot_images
      polishedEdgesText_def split: option.splits)

lemma addPiece_placeholders:
  "length (filter is_placeholder (pdf_ops (addPieceToPDF split cv item i first)))
     = (case cv of Some (Canvas d) \<Rightarrow> 0 | _ \<Rightarrow> 1)"
  by (simp add: addPieceToPDF_def Let_def pdf_ops_append image_slot_placeholders
      polishedEdgesText_def split: option.splits)

lemma addPiece_either:
  "length (filter (\<lambda>op. is_image op \<or> is_placeholder op)
      (pdf_ops (addPieceToPDF split cv item i first))) = 1"
  by (simp add: addPieceToPDF_def Let_def pdf_ops_append image_slot_either
      polishedEdgesText_def split: option.splits)

lemma loop_body_images:
  "length (filter is_image (pdf_ops (loop_body split cs ps i)))
     = (case cs ! i of Some (Canvas d) \<Rightarrow> 1 | _ \<Rightarrow> 0)"
  by (simp add: loop_body_def pdf_ops_append addPiece_images)

lemma loop_body_placeholders:
  "length (filter is_placeholder (pdf_ops (loop_body split cs ps i)))
     = (case cs ! i of Some (Canvas d) \<Rightarrow> 0 | _ \<Rightarrow> 1)"
  by (simp add: loop_body_def pdf_ops_append addPiece_placeholders)

lemma loop_body_slot:
  "(case cs ! i of Some (Canvas d) \<Rightarrow> shows_image (pdf_ops (loop_body split cs ps i))
     | _ \<Rightarrow> shows_placeholder (pdf_ops (loop_body split cs ps i)))"
proof -
  have e: "(xs = []) = (length xs = 0)" for xs :: "pdf_op list" by simp
  show ?thesis
    unfolding shows_image_def shows_placeholder_def e
      loop_body_images loop_body_placeholders
    by (simp split: option.splits canvas.splits)
qed

lemma sync_body_titles:
  "length (filter is_piece_title (pdf_ops (sync_forEach_body split cs item i))) = 1"
  by (simp add: sync_forEach_body_def Let_def pdf_ops_append image_slot_titles
      polishedEdgesText_def split: option.splits)

lemma sync_body_pages:
  "length (filter (\<lambda>op. op = AddPage) (pdf_ops (sync_forEach_body split cs item i)))
     = (if i > 0 then 1 else 0)"
  by (simp add: sync_forEach_body_def Let_def pdf_ops_append image_slot_pages
      polishedEdgesText_def split: option.splits)



lemma sync_export_ops:
  assumes "cs \<noteq> []" "ps \<noteq> []"
  shows "pdf_ops (fst (sync_exportMultipleToPDF split h cs ps name))
     = addProjectInfoToPDF h (if name \<noteq> [] then name else ''Stone Project'') (length ps)
       @ concat (map (\<lambda>i. pdf_ops (sync_forEach_body split cs (ps ! i) i)) [0 ..< length ps])"
  using assms
  by (simp add: sync_exportMultipleToPDF_def Let_def pdf_ops_append pdf_ops_concat comp_def
      addProjectInfoToPDF_def PDF_MARGINS_left_def PDF_MARGINS_top_def del: upt.simps)



lemma sync_pages_upto:
  "length (filter (\<lambda>op. op = AddPage)
      (concat (map (\<lambda>i. pdf_ops (sync_forEach_body split cs (ps ! i) i)) [0 ..< n]))) = n - 1"
proof (cases n)
  case 0
  then show ?thesis by simp
next
  case (Suc m)
  have r: "[0 ..< Suc m] = 0 # [1 ..< Suc m]" by (simp add: upt_rec)
  have "length (filter (\<lambda>op. op = AddPage)
      (concat (map (\<lambda>i. pdf_ops (sync_forEach_body split cs (ps ! i) i)) [1 ..< Suc m])))
      = 1 * length [1 ..< Suc m]"
    by (rule filter_concat_const) (auto simp: sync_body_pages)
  then show ?thesis
    unfolding Suc r by (simp add: sync_body_pages del: upt.simps)
qed

lemma sync_titles_upto:
  "length (filter is_piece_title
      (concat (map (\<lambda>i. pdf_ops (sync_forEach_body split cs (ps ! i) i)) [0 ..< n]))) = n"
  using filter_concat_const [of "[0 ..< n]" is_piece_title
      "\<lambda>i. pdf_ops (sync_forEach_body split cs (ps ! i) i)" 1]
  by (simp add: sync_body_titles)



text \<open>
  Claim C6.  With \<open>n\<close> canvases and \<open>n\<close> pieces, \<open>n \<ge> 1\<close>, the document has exactly
  \<open>n\<close> piece-title blocks and exactly \<open>n - 1\<close> page breaks, in the batched and in
  the synchronous export.
\<close>

theorem exportMultiple_titles_and_page_breaks:
  assumes "length cs = n" "length ps = n" "0 < n"
  shows "length (filter is_piece_title (pdf_ops (fst (exportMultipleToPDF split h cs ps name)))) = n
     \<and> length (filter (\<lambda>op. op = AddPage)
          (pdf_ops (fst (exportMultipleToPDF split h cs ps name)))) = n - 1
     \<and> length (filter is_piece_title
          (pdf_ops (fst (sync_exportMultipleToPDF split h cs ps name)))) = n
     \<and> length (filter (\<lambda>op. op = AddPage)
          (pdf_ops (fst (sync_exportMultipleToPDF split h cs ps name)))) = n - 1"
proof -
  have ne: "cs \<noteq> []" "ps \<noteq> []" using assms by auto
  show ?thesis
    using assms(1,2)
    by (simp add: export_ops [OF ne] sync_export_ops [OF ne] header_titles header_pages
        titles_upto pages_upto sync_titles_upto sync_pages_upto del: upt.simps)
qed

lemma titled_pieces_Cons: "titled_pieces (e # es) = titled_pieces [e] @ titled_pieces es"
  using titled_pieces_append [of "[e]" es] by (simp only: append_Cons append_Nil)

lemma concat_tasks_titled: "concat (map titled_pieces (tasks es)) = titled_pieces es"
proof (induction es)
  case Nil
  show ?case by simp
next
  case (Cons e es)
  show ?case
  proof (cases "\<exists>ms. e = SetTimeout ms")
    case True
    then show ?thesis using Cons by auto
  next
    case False
    then have ne: "\<And>ms. e \<noteq> SetTimeout ms" by simp
    have c: "concat (map titled_pieces (tasks es))
        = titled_pieces (hd (tasks es)) @ concat (map titled_pieces (tl (tasks es)))"
      using tasks_nonempty [of es] by (cases "tasks es") simp_all
    have "concat (map titled_pieces (tasks (e # es)))
        = titled_pieces (e # hd (tasks es)) @ concat (map titled_pieces (tl (tasks es)))"
      by (simp add: tasks_Cons_other [OF ne])
    also have "\<dots> = titled_pieces [e] @ titled_pieces (hd (tasks es))
          @ concat (map titled_pieces (tl (tasks es)))"
      by (simp only: titled_pieces_Cons [of e "hd (tasks es)"] append_assoc)
    also have "\<dots> = titled_pieces [e] @ titled_pieces es"
      by (simp only: c [symmetric] Cons.IH)
    also have "\<dots> = titled_pieces (e # es)"
      by (simp only: titled_pieces_Cons [of e es])
    finally show ?thesis .
  qed
qed

lemma concat_batches: "concat (batches_of_2 xs) = xs"
  by (induction xs rule: batches_of_2.induct) simp_all

lemma header_no_timeout: "SetTimeout ms \<notin> set (NewPdf # map PdfOp ops)"
  by auto

lemma titled_map_PdfOp_header: "titled_pieces (NewPdf # map PdfOp (addProjectInfoToPDF h name n)) = []"
  by (simp add: addProjectInfoToPDF_def)

lemma export_tasks:
  assumes "cs \<noteq> []" "ps \<noteq> []"
  shows "map titled_pieces (tasks (fst (exportMultipleToPDF split h cs ps name)))
     = batches_of_2 (map Suc [0 ..< min (length cs) (length ps)])
       @ (if isMobile h then [[], []] else [[]])"
proof -
  let ?name = "if name \<noteq> [] then name else ''Stone Project''"
  let ?pre = "NewPdf # map PdfOp (addProjectInfoToPDF h ?name (length ps))"
  let ?rest = "fst (processBatch split h cs ps ?name 0)"
  have ev: "fst (exportMultipleToPDF split h cs ps name) = ?pre @ ?rest"
    using assms by (simp add: exportMultipleToPDF_def processCanvasesInBatches_def Let_def)
  have "tasks (?pre @ ?rest) = (?pre @ hd (tasks ?rest)) # tl (tasks ?rest)"
    by (rule tasks_prefix) (rule header_no_timeout)
  then have "map titled_pieces (tasks (?pre @ ?rest))
      = titled_pieces (hd (tasks ?rest)) # map titled_pieces (tl (tasks ?rest))"
    by (simp only: list.map titled_pieces_append titled_map_PdfOp_header append_Nil)
  also have "\<dots> = map titled_pieces (tasks ?rest)"
    using tasks_nonempty [of ?rest] by (cases "tasks ?rest") simp_all
  also have "\<dots> = batches_of_2 (map Suc [0 ..< min (length cs) (length ps)])
       @ (if isMobile h then [[], []] else [[]])"
    by (rule processBatch_tasks [OF refl]) simp
  finally show ?thesis by (simp only: ev)
qed

lemma export_titled:
  assumes "cs \<noteq> []" "ps \<noteq> []"
  shows "titled_pieces (fst (exportMultipleToPDF split h cs ps name))
     = map Suc [0 ..< min (length cs) (length ps)]"
proof -
  have "titled_pieces (fst (exportMultipleToPDF split h cs ps name))
      = concat (map titled_pieces (tasks (fst (exportMultipleToPDF split h cs ps name))))"
    by (simp only: concat_tasks_titled)
  also have "\<dots> = map Suc [0 ..< min (length cs) (length ps)]"
    by (simp only: export_tasks [OF assms] concat_append concat_batches) simp
  finally show ?thesis .
qed

lemma loop_body_slots:
  "length (filter (\<lambda>op. is_image op \<or> is_placeholder op) (pdf_ops (loop_body split cs ps i))) = 1"
  by (simp add: loop_body_def pdf_ops_append addPiece_either)

lemma slots_upto:
  "length (filter (\<lambda>op. is_image op \<or> is_placeholder op)
      (concat (map (\<lambda>i. pdf_ops (loop_body split cs ps i)) [0 ..< n]))) = n"
  using filter_concat_const [of "[0 ..< n]" "\<lambda>op. is_image op \<or> is_placeholder op"
      "\<lambda>i. pdf_ops (loop_body split cs ps i)" 1]
  by (simp add: loop_body_slots)

text \<open>
  Claim C5.  For every number of pieces, the trace of \<open>exportMultipleToPDF\<close> cut at
  its returns to the host consists of one task per batch of two consecutive pieces (the
  first task also builds the header), followed by the delivery: no task holds the
  pieces of more than one batch.
\<close>

theorem exportMultiple_batches_are_separate_tasks:
  assumes "cs \<noteq> []" "ps \<noteq> []"
  shows "map titled_pieces (tasks (fst (exportMultipleToPDF split h cs ps name)))
     = batches_of_2 (map Suc [0 ..< min (length cs) (length ps)])
       @ (if isMobile h then [[], []] else [[]])"
  by (rule export_tasks [OF assms])

theorem exportMultiple_batches_are_separate_tasks_witness:
  "replicate 5 sample_canvas \<noteq> [] \<and> replicate 5 sample_piece \<noteq> []
   \<and> map titled_pieces (tasks (fst (exportMultipleToPDF short_lines_split desktop
         (replicate 5 sample_canvas) (replicate 5 sample_piece) ''Kitchen'')))
     = [[1, 2], [3, 4], [5], []]"
  using exportMultiple_batches_are_separate_tasks [of "replicate 5 sample_canvas" "replicate 5 sample_piece" short_lines_split desktop
      "''Kitchen''"]
  by (simp add: desktop_def upt_rec numeral_eq_Suc)

text \<open>
  Claim C10.  The batched export places \<open>min (length canvases) (length pieces)\<close> pieces:
  the titles written are those of pieces \<open>1..min\<close>, with \<open>min - 1\<close> page breaks and
  \<open>min\<close> image-or-placeholder slots, so a surplus piece gets no title, no page and no
  placeholder; and the call resolves.
\<close>

theorem exportMultiple_places_min_pieces:
  assumes "cs \<noteq> []" "ps \<noteq> []"
  shows "snd (exportMultipleToPDF split h cs ps name) = Resolved
     \<and> titled_pieces (fst (exportMultipleToPDF split h cs ps name))
         = map Suc [0 ..< min (length cs) (length ps)]
     \<and> length (filter (\<lambda>op. op = AddPage)
          (pdf_ops (fst (exportMultipleToPDF split h cs ps name))))
         = min (length cs) (length ps) - 1
     \<and> length (filter (\<lambda>op. is_image op \<or> is_placeholder op)
          (pdf_ops (fst (exportMultipleToPDF split h cs ps name))))
         = min (length cs) (length ps)"
  using export_resolved [OF assms] export_titled [OF assms]
  by (simp add: export_ops [OF assms] header_pages header_slots pages_upto slots_upto
      del: upt.simps)

theorem exportMultiple_places_min_pieces_witness:
  "replicate 2 sample_canvas \<noteq> [] \<and> replicate 5 sample_piece \<noteq> []
   \<and> snd (exportMultipleToPDF short_lines_split desktop
         (replicate 2 sample_canvas) (replicate 5 sample_piece) ''Kitchen'') = Resolved
   \<and> titled_pieces (fst (exportMultipleToPDF short_lines_split desktop
         (replicate 2 sample_canvas) (replicate 5 sample_piece) ''Kitchen'')) = [1, 2]
   \<and> length (filter (\<lambda>op. op = AddPage) (pdf_ops (fst (exportMultipleToPDF short_lines_split desktop
         (replicate 2 sample_canvas) (replicate 5 sample_piece) ''Kitchen'')))) = 1
   \<and> length (filter (\<lambda>op. is_image op \<or> is_placeholder op)
        (pdf_ops (fst (exportMultipleToPDF short_lines_split desktop
         (replicate 2 sample_canvas) (replicate 5 sample_piece) ''Kitchen'')))) = 2"
  using exportMultiple_places_min_pieces [of "replicate 2 sample_canvas" "replicate 5 sample_piece" short_lines_split desktop
      "''Kitchen''"]
  by (simp add: upt_rec numeral_eq_Suc)

theorem exportMultiple_titles_and_page_breaks_witness:
  "length (replicate 5 sample_canvas) = 5 \<and> length (replicate 5 sample_piece) = 5 \<and> (0::nat) < 5
   \<and> length (filter is_piece_title (pdf_ops (fst (exportMultipleToPDF short_lines_split desktop
         (replicate 5 sample_canvas) (replicate 5 sample_piece) ''Kitchen'')))) = 5
   \<and> length (filter (\<lambda>op. op = AddPage) (pdf_ops (fst (exportMultipleToPDF short_lines_split desktop
         (replicate 5 sample_canvas) (replicate 5 sample_piece) ''Kitchen'')))) = 4
   \<and> length (filter is_piece_title (pdf_ops (fst (sync_exportMultipleToPDF short_lines_split desktop
         (replicate 5 sample_canvas) (replicate 5 sample_piece) ''Kitchen'')))) = 5
   \<and> length (filter (\<lambda>op. op = AddPage) (pdf_ops (fst (sync_exportMultipleToPDF short_lines_split
         desktop (replicate 5 sample_canvas) (replicate 5 sample_piece) ''Kitchen'')))) = 4"
  using exportMultiple_titles_and_page_breaks
      [of "replicate 5 sample_canvas" 5 "replicate 5 sample_piece" short_lines_split desktop
        "''Kitchen''"]
  by simp


text \<open>
  The example of the specification: five pieces, the canvas of the third one missing.
  Pieces 1, 2, 4 and 5 show their image, piece 3 shows the placeholder.
\<close>

lemma five_pieces_third_canvas_missing:
  "map (\<lambda>i. shows_image (pdf_ops (loop_body short_lines_split
         [sample_canvas, sample_canvas, None, sample_canvas, sample_canvas]
         (replicate 5 sample_piece) i))) [0, 1, 3, 4] = [True, True, True, True]
   \<and> shows_placeholder (pdf_ops (loop_body short_lines_split
         [sample_canvas, sample_canvas, None, sample_canvas, sample_canvas]
         (replicate 5 sample_piece) 2))"
  using loop_body_slot [where cs = "[sample_canvas, sample_canvas, None, sample_canvas, sample_canvas]"
      and i = 0 and split = short_lines_split and ps = "replicate 5 sample_piece"]
    loop_body_slot [where cs = "[sample_canvas, sample_canvas, None, sample_canvas, sample_canvas]"
      and i = 1 and split = short_lines_split and ps = "replicate 5 sample_piece"]
    loop_body_slot [where cs = "[sample_canvas, sample_canvas, None, sample_canvas, sample_canvas]"
      and i = 2 and split = short_lines_split and ps = "replicate 5 sample_piece"]
    loop_body_slot [where cs = "[sample_canvas, sample_canvas, None, sample_canvas, sample_canvas]"
      and i = 3 and split = short_lines_split and ps = "replicate 5 sample_piece"]
    loop_body_slot [where cs = "[sample_canvas, sample_canvas, None, sample_canvas, sample_canvas]"
      and i = 4 and split = short_lines_split and ps = "replicate 5 sample_piece"]
  by (simp add: sample_canvas_def)

section \<open>Verification: RenderEngine\<close>














section \<open>Verification: ExportPipeline, single-piece export\<close>

text \<open>
  The image of the single-piece document is placed 65 mm down the page, plus
  \<open>min (5 * lines, 60)\<close> when the notes are not blank.
\<close>

lemma createSinglePiecePDF_image_position:
  "image_extents (createSinglePiecePDF split imgData specs notes)
     = (let shift = (if js_trim notes \<noteq> [] then min (length (split notes 180) * 5) 60 else 0)
        in [(65 + shift, 65 + shift + 120)])"
  by (simp add: createSinglePiecePDF_def Let_def PDF_MARGINS_top_def PDF_MARGINS_left_def
      IMAGE_SIZE_height_def IMAGE_SIZE_width_def MAX_TEXT_WIDTH_def)

text \<open>The older \<open>exportToPDF\<close> shifts the image by a constant 20 and keeps it on the page.\<close>

lemma sync_image_on_page:
  "image_extents (sync_exportToPDF_document split imgData specs notes)
     = [(if js_trim notes \<noteq> [] then (85, 205) else (65, 185))]"
  by (simp add: sync_exportToPDF_document_def Let_def)

text \<open>
  Claim C8.  The shift is a function of the number of wrapped lines and is capped at 60,
  but the cap does not keep the image on the page: with notes of twelve lines the
  image is placed from 125 mm to 245 mm on a page 210 mm high.
\<close>

theorem createSinglePiecePDF_image_leaves_page:
  "image_extents (createSinglePiecePDF short_lines_split ''data'' sample_specs twelve_lines)
     = [(125, 245)] \<and> PAGE_height < 245"
  by code_simp


end
